theory Spec2Isabelle
  imports Complex_Main
begin

section \<open>Query helpers of the Airtable MCP server (src/utils/query-helpers.ts)\<close>

text \<open>
  The formula builders of \<^verbatim>\<open>query-helpers.ts\<close> are pure functions from strings and
  numbers to strings, apart from the errors they throw. They are embedded here as HOL
  functions; a thrown \<^verbatim>\<open>Error\<close> is the left injection of a sum type.

  A JavaScript string is a sequence of UTF-16 code units. The model takes the code units
  U+0000 to U+00FF, one \<^typ>\<open>char\<close> each, so a \<^typ>\<open>string\<close> is a JavaScript string
  over that range. In this range the built-ins used by the source
  (\<^verbatim>\<open>trim\<close>, \<^verbatim>\<open>toLowerCase\<close>, \<^verbatim>\<open>includes\<close>, \<^verbatim>\<open>split\<close>, \<^verbatim>\<open>replace\<close>, \<^verbatim>\<open>parseInt\<close>
  and the regular expressions) are modelled as ECMA-262 defines them.
\<close>

subsection \<open>Characters and string built-ins\<close>

abbreviation (input) QUOTE :: char where
  "QUOTE \<equiv> CHR 0x27"

abbreviation (input) BACKSLASH :: char where
  "BACKSLASH \<equiv> CHR 0x5C"

abbreviation (input) LF :: char where
  "LF \<equiv> CHR 0x0A"

abbreviation (input) CR :: char where
  "CR \<equiv> CHR 0x0D"

text \<open>
  White space and line terminators of ECMA-262 below U+0100: TAB, LF, VT, FF, CR, SP and
  NBSP. \<^verbatim>\<open>String.prototype.trim\<close> and \<^verbatim>\<open>parseInt\<close> strip exactly these.
\<close>

definition isWhiteSpace :: "char \<Rightarrow> bool" where
  "isWhiteSpace c = (of_char c \<in> {9, 10, 11, 12, 13, 32, 160 :: nat})"

definition trimStart :: "string \<Rightarrow> string" where
  "trimStart s = dropWhile isWhiteSpace s"

definition trimEnd :: "string \<Rightarrow> string" where
  "trimEnd s = rev (dropWhile isWhiteSpace (rev s))"

definition trim :: "string \<Rightarrow> string" where
  "trim s = trimEnd (trimStart s)"

text \<open>
  \<^verbatim>\<open>toLowerCase\<close>: below U+0100 the letters with a lowercase partner are A to Z and
  U+00C0 to U+00DE without the multiplication sign U+00D7; the partner is 32 higher.
\<close>

definition toLowerCaseUnit :: "char \<Rightarrow> char" where
  "toLowerCaseUnit c =
     (let n = (of_char c :: nat)
      in if (65 \<le> n \<and> n \<le> 90) \<or> (192 \<le> n \<and> n \<le> 222 \<and> n \<noteq> 215)
         then char_of (n + 32) else c)"

definition toLowerCase :: "string \<Rightarrow> string" where
  "toLowerCase s = map toLowerCaseUnit s"

fun startsWith :: "string \<Rightarrow> string \<Rightarrow> bool" where
  "startsWith s [] = True"
| "startsWith [] (p # ps) = False"
| "startsWith (c # cs) (p # ps) = (c = p \<and> startsWith cs ps)"

text \<open>\<^verbatim>\<open>s.includes(t)\<close>: \<open>t\<close> occurs in \<open>s\<close> as a contiguous block.\<close>

fun includes_str :: "string \<Rightarrow> string \<Rightarrow> bool" where
  "includes_str [] t = (t = [])"
| "includes_str (c # cs) t = (startsWith (c # cs) t \<or> includes_str cs t)"

text \<open>\<^verbatim>\<open>xs.join(sep)\<close> on an array of strings.\<close>

fun join :: "string \<Rightarrow> string list \<Rightarrow> string" where
  "join sep [] = []"
| "join sep [x] = x"
| "join sep (x # y # ys) = x @ sep @ join sep (y # ys)"

subsection \<open>Sanitizers\<close>

datatype error =
    InvalidFieldName
  | EmptyFieldName
  | MinimumNotFinite
  | MaximumNotFinite
  | StartDateFormat
  | EndDateFormat

text \<open>
  \<^verbatim>\<open>str.replace(/'/g, "''")\<close>: the global flag replaces every match, left to right; the
  pattern matches one code unit and the replacement holds no \<^verbatim>\<open>$\<close>.
\<close>

fun escapeFormulaString :: "string \<Rightarrow> string" where
  "escapeFormulaString [] = []"
| "escapeFormulaString (c # cs) =
     (if c = QUOTE then [QUOTE, QUOTE] else [c]) @ escapeFormulaString cs"

text \<open>
  Reading an escaped literal back: a pair of quotes stands for one quote, a quote on
  its own would end the literal (\<open>None\<close>).
\<close>

fun unescapeLiteral :: "string \<Rightarrow> string option" where
  "unescapeLiteral [] = Some []"
| "unescapeLiteral [c] = (if c = QUOTE then None else Some [c])"
| "unescapeLiteral (c # d # cs) =
     (if c = QUOTE
      then (if d = QUOTE then map_option ((#) QUOTE) (unescapeLiteral cs) else None)
      else map_option ((#) c) (unescapeLiteral (d # cs)))"

text \<open>The test \<^verbatim>\<open>/[{}\n\r]/.test(fieldName)\<close>.\<close>

definition hasForbiddenChar :: "string \<Rightarrow> bool" where
  "hasForbiddenChar s = list_ex (\<lambda>c. c = CHR ''{'' \<or> c = CHR ''}'' \<or> c = LF \<or> c = CR) s"

definition sanitizeFieldName :: "string \<Rightarrow> error + string" where
  "sanitizeFieldName fieldName =
     (if hasForbiddenChar fieldName then Inl InvalidFieldName
      else let trimmed = trim fieldName
           in if length trimmed = 0 then Inl EmptyFieldName else Inr trimmed)"

subsection \<open>Numbers\<close>

text \<open>
  A JavaScript number is a double: not-a-number, an infinity, or a finite value, which
  is a rational. Negative zero is the finite value 0: the source only compares numbers
  and prints them, and both treat the two zeros alike.
\<close>

datatype number = NaN | NegInfinity | Finite rat | PosInfinity

text \<open>\<^verbatim>\<open>a <= b\<close> and \<^verbatim>\<open>a >= b\<close>: false as soon as one side is \<^verbatim>\<open>NaN\<close>.\<close>

fun num_le :: "number \<Rightarrow> number \<Rightarrow> bool" where
  "num_le NaN b = False"
| "num_le a NaN = False"
| "num_le NegInfinity b = True"
| "num_le a PosInfinity = True"
| "num_le (Finite x) (Finite y) = (x \<le> y)"
| "num_le a b = False"

definition num_ge :: "number \<Rightarrow> number \<Rightarrow> bool" where
  "num_ge a b = num_le b a"

definition isFinite :: "number \<Rightarrow> bool" where
  "isFinite a = (case a of Finite x \<Rightarrow> True | _ \<Rightarrow> False)"

text \<open>
  The number value of an integer (ECMA-262, 6.1.6.1): the nearest double, the one with
  the even significand when two are equally near, and an infinity from \<open>2 ^ 1024\<close> on.
  Up to \<open>2 ^ 53\<close> it is the integer itself.
\<close>

function bitLength :: "int \<Rightarrow> nat" where
  "bitLength n = (if n \<le> 0 then 0 else Suc (bitLength (n div 2)))"
  by pat_completeness auto
termination
  by (relation "measure nat") auto

declare bitLength.simps [simp del]

definition toNumber :: "int \<Rightarrow> number" where
  "toNumber i =
     (let n = \<bar>i\<bar>
      in if n < 2 ^ 53 then Finite (of_int i)
         else let e = bitLength n - 53;
                  q = n div 2 ^ e;
                  r = n mod 2 ^ e;
                  q' = (if 2 ^ e < 2 * r \<or> (2 * r = 2 ^ e \<and> odd q) then q + 1 else q);
                  m = q' * 2 ^ e
              in if 2 ^ 1024 \<le> m then (if i < 0 then NegInfinity else PosInfinity)
                 else Finite (of_int (sgn i * m)))"

text \<open>
  \<^verbatim>\<open>parseInt(string)\<close> without a radix (ECMA-262, 19.2.5): strip leading white space,
  read a sign, read radix 16 after \<^verbatim>\<open>0x\<close> or \<^verbatim>\<open>0X\<close> and radix 10 otherwise, take the
  longest run of digits, return \<^verbatim>\<open>NaN\<close> if it is empty and otherwise the number value
  of the integer the digits denote.
\<close>

definition digitValue :: "char \<Rightarrow> nat option" where
  "digitValue c =
     (let n = (of_char c :: nat)
      in if 48 \<le> n \<and> n \<le> 57 then Some (n - 48)
         else if 97 \<le> n \<and> n \<le> 122 then Some (n - 87)
         else if 65 \<le> n \<and> n \<le> 90 then Some (n - 55)
         else None)"

definition isRadixDigit :: "nat \<Rightarrow> char \<Rightarrow> bool" where
  "isRadixDigit R c = (case digitValue c of None \<Rightarrow> False | Some d \<Rightarrow> d < R)"

definition digitsValue :: "nat \<Rightarrow> string \<Rightarrow> int" where
  "digitsValue R Z =
     foldl (\<lambda>acc c. acc * int R + (case digitValue c of None \<Rightarrow> 0 | Some d \<Rightarrow> int d)) 0 Z"

definition parseInt :: "string \<Rightarrow> number" where
  "parseInt inputString =
     (let S = trimStart inputString;
          sign = (if startsWith S ''-'' then - 1 else 1 :: int);
          S1 = (if startsWith S ''+'' \<or> startsWith S ''-'' then tl S else S);
          hex = (startsWith S1 ''0x'' \<or> startsWith S1 ''0X'');
          R = (if hex then 16 else 10);
          S2 = (if hex then drop 2 S1 else S1);
          Z = takeWhile (isRadixDigit R) S2
      in if Z = [] then NaN else toNumber (sign * digitsValue R Z))"

text \<open>
  An array element that may be missing: \<^verbatim>\<open>parts[1]\<close> is \<^verbatim>\<open>undefined\<close> past the end, and
  \<^verbatim>\<open>parseInt(undefined)\<close> parses the string \<^verbatim>\<open>"undefined"\<close>.
\<close>

definition at_index :: "'a list \<Rightarrow> nat \<Rightarrow> 'a option" where
  "at_index xs i = (if i < length xs then Some (xs ! i) else None)"

definition parseIntArg :: "string option \<Rightarrow> number" where
  "parseIntArg a = (case a of None \<Rightarrow> parseInt ''undefined'' | Some s \<Rightarrow> parseInt s)"

text \<open>\<^verbatim>\<open>s.split(sep)\<close> for a separator of one code unit.\<close>

fun split_str :: "char \<Rightarrow> string \<Rightarrow> string list" where
  "split_str sep [] = [[]]"
| "split_str sep (c # cs) =
     (if c = sep then [] # split_str sep cs
      else (case split_str sep cs of
              [] \<Rightarrow> [[c]]
            | p # ps \<Rightarrow> (c # p) # ps))"

text \<open>\<^verbatim>\<open>s.replace(pat, r)\<close> for a string pattern of one code unit: the first match only.\<close>

fun replaceFirst :: "char \<Rightarrow> string \<Rightarrow> string \<Rightarrow> string" where
  "replaceFirst pat r [] = []"
| "replaceFirst pat r (c # cs) = (if c = pat then r @ cs else c # replaceFirst pat r cs)"

subsection \<open>Age ranges\<close>

record AgeRangeOption =
  id' :: string
  name :: string
  minAge :: number
  maxAge :: "number option"

definition parseAgeRange :: "string \<Rightarrow> AgeRangeOption" where
  "parseAgeRange rangeStr =
     (let parts = split_str CHR ''-'' rangeStr
      in if includes_str rangeStr ''+''
         then \<lparr>id' = [], name = rangeStr,
               minAge = parseInt (replaceFirst CHR ''+'' [] rangeStr), maxAge = None\<rparr>
         else \<lparr>id' = [], name = rangeStr,
               minAge = parseIntArg (at_index parts 0),
               maxAge = Some (parseIntArg (at_index parts 1))\<rparr>)"

text \<open>The \<^verbatim>\<open>for\<close> loop of \<^verbatim>\<open>findOverlappingAgeRanges\<close>, pushing onto \<open>overlapping\<close>.\<close>

fun overlapLoop :: "number \<Rightarrow> number \<Rightarrow> AgeRangeOption list \<Rightarrow> string list \<Rightarrow> string list" where
  "overlapLoop minA maxA [] overlapping = overlapping"
| "overlapLoop minA maxA (rng # rest) overlapping =
     (case maxAge rng of
        None \<Rightarrow>
          (if num_ge maxA (minAge rng)
           then overlapLoop minA maxA rest (overlapping @ [name rng])
           else overlapLoop minA maxA rest overlapping)
      | Some rangeMax \<Rightarrow>
          (if num_le (minAge rng) maxA \<and> num_ge rangeMax minA
           then overlapLoop minA maxA rest (overlapping @ [name rng])
           else overlapLoop minA maxA rest overlapping))"

definition findOverlappingAgeRanges :: "number \<Rightarrow> number \<Rightarrow> string list \<Rightarrow> string list" where
  "findOverlappingAgeRanges minA maxA availableRanges =
     overlapLoop minA maxA (map parseAgeRange availableRanges) []"

text \<open>
  The overlap test in the words of the specification: a bounded bucket \<open>[low, high]\<close>
  overlaps the query range iff \<open>low <= maxAge\<close> and \<open>high >= minAge\<close>, an unbounded
  bucket iff \<open>maxAge >= low\<close>.
\<close>

definition bucketOverlaps :: "number \<Rightarrow> number \<Rightarrow> AgeRangeOption \<Rightarrow> bool" where
  "bucketOverlaps minA maxA bucket =
     (case maxAge bucket of
        None \<Rightarrow> num_ge maxA (minAge bucket)
      | Some high \<Rightarrow> num_le (minAge bucket) maxA \<and> num_ge high minA)"

text \<open>The leaf \<^verbatim>\<open>{${sanitizedFieldName}} = '${escapedRange}'\<close>.\<close>

definition equalityLeaf :: "string \<Rightarrow> string \<Rightarrow> string" where
  "equalityLeaf sanitizedFieldName rng =
     ''{'' @ sanitizedFieldName @ ''} = '' @ [QUOTE] @ escapeFormulaString rng @ [QUOTE]"

definition buildAgeRangeFormula ::
  "string \<Rightarrow> number \<Rightarrow> number \<Rightarrow> string list \<Rightarrow> error + string" where
  "buildAgeRangeFormula fieldName minA maxA availableRanges =
     (case sanitizeFieldName fieldName of
        Inl e \<Rightarrow> Inl e
      | Inr sanitizedFieldName \<Rightarrow>
          (let overlappingRanges = findOverlappingAgeRanges minA maxA availableRanges
           in if length overlappingRanges = 0 then Inr ''FALSE()''
              else if length overlappingRanges = 1
                   then Inr (equalityLeaf sanitizedFieldName (overlappingRanges ! 0))
                   else Inr (''OR('' @
                             join '', '' (map (equalityLeaf sanitizedFieldName) overlappingRanges)
                             @ '')'')))"

text \<open>
  The buckets of the catalogue that overlap the query range, in the order of the
  catalogue, and the labels the specification describes: decimal digits followed by
  \<^verbatim>\<open>+\<close>, or two runs of decimal digits with \<^verbatim>\<open>-\<close> between them.
\<close>

definition overlappingBuckets :: "number \<Rightarrow> number \<Rightarrow> string list \<Rightarrow> string list" where
  "overlappingBuckets minA maxA availableRanges =
     filter (\<lambda>label. bucketOverlaps minA maxA (parseAgeRange label)) availableRanges"

definition isDecimal :: "string \<Rightarrow> bool" where
  "isDecimal s = (s \<noteq> [] \<and> list_all (isRadixDigit 10) s)"

subsection \<open>Fuzzy resolution of option names\<close>

definition fuzzyMatchOptions :: "string \<Rightarrow> string list \<Rightarrow> string list" where
  "fuzzyMatchOptions searchTerm availableOptions =
     (let lowerSearch = toLowerCase searchTerm
      in filter (\<lambda>option. includes_str (toLowerCase option) lowerSearch) availableOptions)"

text \<open>
  \<^verbatim>\<open>Set.prototype.add\<close> on a set kept in insertion order, which is the order
  \<^verbatim>\<open>Array.from\<close> returns.
\<close>

definition setAdd :: "string list \<Rightarrow> string \<Rightarrow> string list" where
  "setAdd resolved x = (if x \<in> set resolved then resolved else resolved @ [x])"

text \<open>
  The loop over \<open>values\<close>. \<^verbatim>\<open>find\<close> returns the first option that satisfies the test,
  or \<^verbatim>\<open>undefined\<close>; the test \<^verbatim>\<open>if (exactMatch)\<close> is on the truthiness of the result,
  and the empty string is falsy.
\<close>

fun resolveLoop :: "string list \<Rightarrow> string list \<Rightarrow> string list \<Rightarrow> string list" where
  "resolveLoop availableOptions [] resolved = resolved"
| "resolveLoop availableOptions (v # rest) resolved =
     (case find (\<lambda>opt. toLowerCase opt = toLowerCase v) availableOptions of
        Some exactMatch \<Rightarrow>
          (if exactMatch \<noteq> []
           then resolveLoop availableOptions rest (setAdd resolved exactMatch)
           else resolveLoop availableOptions rest
                  (foldl setAdd resolved (fuzzyMatchOptions v availableOptions)))
      | None \<Rightarrow>
          resolveLoop availableOptions rest
            (foldl setAdd resolved (fuzzyMatchOptions v availableOptions)))"

definition resolveOptionsWithFuzzyMatch :: "string list \<Rightarrow> string list option \<Rightarrow> string list" where
  "resolveOptionsWithFuzzyMatch values availableOptions =
     (case availableOptions of
        None \<Rightarrow> values
      | Some opts \<Rightarrow> if length opts = 0 then values else resolveLoop opts values [])"

subsection \<open>Set-membership builders\<close>

text \<open>The leaf \<^verbatim>\<open>FIND('${escaped}', ARRAYJOIN({${sanitizedFieldName}}))\<close>.\<close>

definition containmentLeaf :: "string \<Rightarrow> string \<Rightarrow> string" where
  "containmentLeaf sanitizedFieldName v =
     ''FIND('' @ [QUOTE] @ escapeFormulaString v @ [QUOTE] @ '', ARRAYJOIN({''
       @ sanitizedFieldName @ ''}))''"

text \<open>
  \<^verbatim>\<open>useFuzzyMatch && availableOptions ? resolveOptionsWithFuzzyMatch(...) : values\<close>;
  an array, also the empty one, is truthy. The optional \<open>availableOptions\<close> is \<open>None\<close>
  when the caller leaves it out, and a caller that leaves \<open>useFuzzyMatch\<close> out passes
  its default, \<open>True\<close>.
\<close>

definition resolvedValuesOf :: "string list \<Rightarrow> string list option \<Rightarrow> bool \<Rightarrow> string list" where
  "resolvedValuesOf values availableOptions useFuzzyMatch =
     (if useFuzzyMatch \<and> availableOptions \<noteq> None
      then resolveOptionsWithFuzzyMatch values availableOptions
      else values)"

definition buildMultipleSelectHasAny ::
  "string \<Rightarrow> string list \<Rightarrow> string list option \<Rightarrow> bool \<Rightarrow> error + string" where
  "buildMultipleSelectHasAny fieldName values availableOptions useFuzzyMatch =
     (case sanitizeFieldName fieldName of
        Inl e \<Rightarrow> Inl e
      | Inr sanitizedFieldName \<Rightarrow>
          if length values = 0 then Inr ''FALSE()''
          else let resolvedValues = resolvedValuesOf values availableOptions useFuzzyMatch
               in if length resolvedValues = 0 then Inr ''FALSE()''
                  else if length resolvedValues = 1
                       then Inr (containmentLeaf sanitizedFieldName (resolvedValues ! 0))
                       else Inr (''OR('' @
                                 join '', '' (map (containmentLeaf sanitizedFieldName) resolvedValues)
                                 @ '')''))"

definition buildMultipleSelectHasAll ::
  "string \<Rightarrow> string list \<Rightarrow> string list option \<Rightarrow> bool \<Rightarrow> error + string" where
  "buildMultipleSelectHasAll fieldName values availableOptions useFuzzyMatch =
     (case sanitizeFieldName fieldName of
        Inl e \<Rightarrow> Inl e
      | Inr sanitizedFieldName \<Rightarrow>
          if length values = 0 then Inr ''TRUE()''
          else let resolvedValues = resolvedValuesOf values availableOptions useFuzzyMatch
               in if length resolvedValues = 0 then Inr ''TRUE()''
                  else Inr (''AND('' @
                            join '', '' (map (containmentLeaf sanitizedFieldName) resolvedValues)
                            @ '')''))"

definition buildMultipleSelectHasNone ::
  "string \<Rightarrow> string list \<Rightarrow> string list option \<Rightarrow> bool \<Rightarrow> error + string" where
  "buildMultipleSelectHasNone fieldName values availableOptions useFuzzyMatch =
     (case sanitizeFieldName fieldName of
        Inl e \<Rightarrow> Inl e
      | Inr sanitizedFieldName \<Rightarrow>
          if length values = 0 then Inr ''TRUE()''
          else let resolvedValues = resolvedValuesOf values availableOptions useFuzzyMatch
               in if length resolvedValues = 0 then Inr ''TRUE()''
                  else if length resolvedValues = 1
                       then Inr (''NOT('' @ containmentLeaf sanitizedFieldName (resolvedValues ! 0)
                                 @ '')'')
                       else Inr (''NOT(OR('' @
                                 join '', '' (map (containmentLeaf sanitizedFieldName) resolvedValues)
                                 @ ''))''))"

subsection \<open>Number and date ranges\<close>

text \<open>
  An optional bound is \<open>None\<close> when it is \<^verbatim>\<open>undefined\<close> or \<^verbatim>\<open>null\<close>. The template
  literal \<^verbatim>\<open>${min}\<close> prints the number with \<^verbatim>\<open>Number::toString\<close> (ECMA-262, 6.1.6.1.20),
  the shortest decimal that reads back as the same double. That printing is not
  modelled: the builder takes it as its first argument, \<open>numberToString\<close>.
\<close>

definition buildNumberRangeFormula ::
  "(number \<Rightarrow> string) \<Rightarrow> string \<Rightarrow> number option \<Rightarrow> number option \<Rightarrow> error + string" where
  "buildNumberRangeFormula numberToString fieldName min' max' =
     (case sanitizeFieldName fieldName of
        Inl e \<Rightarrow> Inl e
      | Inr sanitizedFieldName \<Rightarrow>
          (case (case min' of
                   None \<Rightarrow> Inr []
                 | Some m \<Rightarrow>
                     if \<not> isFinite m then Inl MinimumNotFinite
                     else Inr ([] @ [''{'' @ sanitizedFieldName @ ''} >= '' @ numberToString m])) of
             Inl e \<Rightarrow> Inl e
           | Inr conditions1 \<Rightarrow>
               (case (case max' of
                        None \<Rightarrow> Inr conditions1
                      | Some m \<Rightarrow>
                          if \<not> isFinite m then Inl MaximumNotFinite
                          else Inr (conditions1 @
                                    [''{'' @ sanitizedFieldName @ ''} <= '' @ numberToString m])) of
                  Inl e \<Rightarrow> Inl e
                | Inr conditions \<Rightarrow>
                    if length conditions = 0 then Inr ''TRUE()''
                    else if length conditions = 1 then Inr (conditions ! 0)
                    else Inr (''AND('' @ join '', '' conditions @ '')''))))"

text \<open>
  The test \<^verbatim>\<open>/^\d{4}-\d{2}-\d{2}(T\d{2}:\d{2}:\d{2}.*)?$/\<close>. In a shape, \<^verbatim>\<open>d\<close> stands for
  a decimal digit and every other character for itself; \<open>matchShape\<close> returns what is
  left of the string after the shape. The dot matches every code unit but a line
  terminator, and \<^verbatim>\<open>$\<close> matches at the end of the string only.
\<close>

definition isDigit :: "char \<Rightarrow> bool" where
  "isDigit c = (48 \<le> (of_char c :: nat) \<and> (of_char c :: nat) \<le> 57)"

fun matchShape :: "string \<Rightarrow> string \<Rightarrow> string option" where
  "matchShape [] s = Some s"
| "matchShape (p # ps) [] = None"
| "matchShape (p # ps) (c # cs) =
     (if (if p = CHR ''d'' then isDigit c else c = p) then matchShape ps cs else None)"

definition isIsoDate :: "string \<Rightarrow> bool" where
  "isIsoDate s =
     (case matchShape ''dddd-dd-dd'' s of
        None \<Rightarrow> False
      | Some rest \<Rightarrow>
          rest = [] \<or>
          (case matchShape ''Tdd:dd:dd'' rest of
             None \<Rightarrow> False
           | Some rest' \<Rightarrow> list_all (\<lambda>c. c \<noteq> LF \<and> c \<noteq> CR) rest'))"

text \<open>
  An optional date is \<open>None\<close> when it is \<^verbatim>\<open>undefined\<close>. The tests \<^verbatim>\<open>if (startDate)\<close>
  and \<^verbatim>\<open>if (endDate)\<close> are on truthiness: a string is truthy unless it is empty.
\<close>

definition buildDateRangeFormula ::
  "string \<Rightarrow> string option \<Rightarrow> string option \<Rightarrow> error + string" where
  "buildDateRangeFormula fieldName startDate endDate =
     (case sanitizeFieldName fieldName of
        Inl e \<Rightarrow> Inl e
      | Inr sanitizedFieldName \<Rightarrow>
          (case (case startDate of
                   Some d \<Rightarrow>
                     if d \<noteq> []
                     then (if \<not> isIsoDate d then Inl StartDateFormat
                           else Inr ([] @ [''IS_AFTER({'' @ sanitizedFieldName @ ''}, '' @ [QUOTE]
                                            @ escapeFormulaString d @ [QUOTE] @ '')'']))
                     else Inr []
                 | None \<Rightarrow> Inr []) of
             Inl e \<Rightarrow> Inl e
           | Inr conditions1 \<Rightarrow>
               (case (case endDate of
                        Some d \<Rightarrow>
                          if d \<noteq> []
                          then (if \<not> isIsoDate d then Inl EndDateFormat
                                else Inr (conditions1 @
                                          [''IS_BEFORE({'' @ sanitizedFieldName @ ''}, '' @ [QUOTE]
                                            @ escapeFormulaString d @ [QUOTE] @ '')'']))
                          else Inr conditions1
                      | None \<Rightarrow> Inr conditions1) of
                  Inl e \<Rightarrow> Inl e
                | Inr conditions \<Rightarrow>
                    if length conditions = 0 then Inr ''TRUE()''
                    else if length conditions = 1 then Inr (conditions ! 0)
                    else Inr (''AND('' @ join '', '' conditions @ '')''))))"

subsection \<open>Combinators\<close>

text \<open>
  The filter \<^verbatim>\<open>f && f !== 'TRUE()'\<close> keeps the strings that are truthy, that is not
  empty, and differ from the sentinel.
\<close>

definition combineFormulasAnd :: "string list \<Rightarrow> string" where
  "combineFormulasAnd formulas =
     (let filtered = filter (\<lambda>f. f \<noteq> [] \<and> f \<noteq> ''TRUE()'') formulas
      in if length filtered = 0 then ''TRUE()''
         else if length filtered = 1 then filtered ! 0
         else ''AND('' @ join '', '' filtered @ '')'')"

definition combineFormulasOr :: "string list \<Rightarrow> string" where
  "combineFormulasOr formulas =
     (let filtered = filter (\<lambda>f. f \<noteq> [] \<and> f \<noteq> ''FALSE()'') formulas
      in if length filtered = 0 then ''FALSE()''
         else if length filtered = 1 then filtered ! 0
         else ''OR('' @ join '', '' filtered @ '')'')"

text \<open>
  What a combinator keeps, in the words of the specification: the formulas that are
  neither empty nor the identity sentinel of the operator.
\<close>

definition survivors :: "string \<Rightarrow> string list \<Rightarrow> string list" where
  "survivors sentinel formulas = filter (\<lambda>f. f \<noteq> [] \<and> f \<noteq> sentinel) formulas"

text \<open>
  What one token resolves to, in the words of the specification: the vocabulary entry
  equal to it up to case if there is one, and otherwise every entry that contains it up
  to case.
\<close>

definition tokenResolution :: "string list \<Rightarrow> string \<Rightarrow> string set" where
  "tokenResolution vocabulary token =
     (case find (\<lambda>opt. toLowerCase opt = toLowerCase token) vocabulary of
        Some exact \<Rightarrow> {exact}
      | None \<Rightarrow> {opt \<in> set vocabulary. includes_str (toLowerCase opt) (toLowerCase token)})"

section \<open>Properties\<close>

subsection \<open>Escaping\<close>

lemma escapeFormulaString_concat:
  "escapeFormulaString s = concat (map (\<lambda>c. if c = QUOTE then [QUOTE, QUOTE] else [c]) s)"
  by (induction s) simp_all

lemma unescape_escape: "unescapeLiteral (escapeFormulaString s) = Some s"
proof (induction s)
  case Nil
  show ?case by simp
next
  case (Cons c cs)
  show ?case
  proof (cases "c = QUOTE")
    case True
    with Cons show ?thesis by simp
  next
    case False
    show ?thesis
    proof (cases "escapeFormulaString cs")
      case Nil
      with Cons have "cs = []" by simp
      with False show ?thesis by simp
    next
      case (Cons d ds)
      with False \<open>unescapeLiteral (escapeFormulaString cs) = Some cs\<close>
      show ?thesis by simp
    qed
  qed
qed

lemma unescape_quote_neighbour:
  "unescapeLiteral xs = Some ys \<Longrightarrow> xs = pre @ QUOTE # post \<Longrightarrow>
     (\<exists>post'. post = QUOTE # post') \<or> (\<exists>pre'. pre = pre' @ [QUOTE])"
proof (induction xs arbitrary: ys pre rule: unescapeLiteral.induct)
  case 1
  then show ?case by simp
next
  case (2 c)
  then show ?case by (cases pre) (auto split: if_splits)
next
  case (3 c d cs)
  show ?case
  proof (cases "c = QUOTE")
    case True
    with "3.prems"(1) have d: "d = QUOTE" by (simp split: if_splits)
    from True d "3.prems"(1) obtain zs where zs: "unescapeLiteral cs = Some zs"
      by (auto split: if_splits)
    show ?thesis
    proof (cases pre)
      case Nil
      with "3.prems"(2) d show ?thesis by auto
    next
      case (Cons p pre1)
      note pre = this
      show ?thesis
      proof (cases pre1)
        case Nil
        with pre "3.prems"(2) True show ?thesis by simp
      next
        case (Cons p2 pre2)
        with pre "3.prems"(2) have cs: "cs = pre2 @ QUOTE # post" by simp
        from "3.IH"(1)[OF True d zs cs]
        show ?thesis using pre Cons "3.prems"(2) True d
          by (cases pre2 rule: rev_cases) auto
      qed
    qed
  next
    case False
    with "3.prems"(1) obtain zs where zs: "unescapeLiteral (d # cs) = Some zs"
      by (auto split: if_splits)
    from False "3.prems"(2) obtain pre1 where pre: "pre = c # pre1"
      by (cases pre) auto
    with "3.prems"(2) have "d # cs = pre1 @ QUOTE # post" by simp
    from "3.IH"(2)[OF False zs this] show ?thesis using pre by auto
  qed
qed

lemma includes_str_iff:
  "includes_str s t \<longleftrightarrow> (\<exists>pre post. s = pre @ t @ post)"
proof -
  have sw: "startsWith s t \<longleftrightarrow> (\<exists>post. s = t @ post)" for s t
    by (induction s t rule: startsWith.induct) auto
  show ?thesis
  proof (induction s)
    case Nil
    show ?case by simp
  next
    case (Cons c cs)
    show ?case
    proof
      assume "includes_str (c # cs) t"
      then consider "startsWith (c # cs) t" | "includes_str cs t" by auto
      then show "\<exists>pre post. c # cs = pre @ t @ post"
      proof cases
        case 1
        then obtain post where "c # cs = t @ post" using sw by blast
        then have "c # cs = [] @ t @ post" by simp
        then show ?thesis by blast
      next
        case 2
        then obtain pre post where "cs = pre @ t @ post" using Cons by blast
        then have "c # cs = (c # pre) @ t @ post" by simp
        then show ?thesis by blast
      qed
    next
      assume "\<exists>pre post. c # cs = pre @ t @ post"
      then obtain pre post where eq: "c # cs = pre @ t @ post" by blast
      show "includes_str (c # cs) t"
      proof (cases pre)
        case Nil
        with eq have "startsWith (c # cs) t" using sw by auto
        then show ?thesis by simp
      next
        case (Cons p pre1)
        with eq have "cs = pre1 @ t @ post" by simp
        then have "includes_str cs t" using Cons.IH by blast
        then show ?thesis by simp
      qed
    qed
  qed
qed

lemma startsWith_escape_quote:
  "startsWith (escapeFormulaString cs) [QUOTE] = startsWith cs [QUOTE]"
  by (cases cs) simp_all

lemma escape_backslash_quote:
  "includes_str (escapeFormulaString s) [BACKSLASH, QUOTE] = includes_str s [BACKSLASH, QUOTE]"
proof (induction s)
  case Nil
  show ?case by simp
next
  case (Cons c cs)
  show ?case
  proof (cases "c = QUOTE")
    case True
    with Cons show ?thesis by simp
  next
    case False
    with Cons startsWith_escape_quote [of cs] show ?thesis by simp
  qed
qed

text \<open>
  Claim C1, as amended. \<^verbatim>\<open>escapeFormulaString\<close> is a total function (it has no error
  result): it replaces every single quote of its input by two single quotes and changes
  nothing else. So reading the output back as a quoted literal gives the input again,
  every quote of the output has another quote right after or right before it, and the
  function adds no backslash escape: the output holds a backslash followed by a quote
  exactly when the input does.
\<close>

theorem escapeFormulaString_doubles_quotes:
  "escapeFormulaString s = concat (map (\<lambda>c. if c = QUOTE then [QUOTE, QUOTE] else [c]) s)
   \<and> unescapeLiteral (escapeFormulaString s) = Some s
   \<and> (\<forall>pre post. escapeFormulaString s = pre @ QUOTE # post \<longrightarrow>
         (\<exists>post'. post = QUOTE # post') \<or> (\<exists>pre'. pre = pre' @ [QUOTE]))
   \<and> (includes_str (escapeFormulaString s) [BACKSLASH, QUOTE]
        \<longleftrightarrow> includes_str s [BACKSLASH, QUOTE])"
proof -
  have "\<forall>pre post. escapeFormulaString s = pre @ QUOTE # post \<longrightarrow>
         (\<exists>post'. post = QUOTE # post') \<or> (\<exists>pre'. pre = pre' @ [QUOTE])"
    using unescape_quote_neighbour [OF unescape_escape] by blast
  then show ?thesis
    using escapeFormulaString_concat unescape_escape escape_backslash_quote by blast
qed

theorem escapeFormulaString_doubles_quotes_witness:
  "escapeFormulaString ''It's'' = ''It'' @ QUOTE # (QUOTE # ''s'')
   \<and> unescapeLiteral (escapeFormulaString ''It's'') = Some ''It's''
   \<and> \<not> includes_str (escapeFormulaString ''It's'') [BACKSLASH, QUOTE]"
  using escapeFormulaString_doubles_quotes [of "''It's''"] by simp

text \<open>
  Claim C1 as it is written says that the output never holds a backslash followed by a
  quote. The function leaves backslashes alone, so for the input backslash, quote the
  output is backslash, quote, quote, which holds that pair.
\<close>

theorem escapeFormulaString_backslash_quote_counterexample:
  "escapeFormulaString [BACKSLASH, QUOTE] = [BACKSLASH, QUOTE, QUOTE]
   \<and> includes_str (escapeFormulaString [BACKSLASH, QUOTE]) [BACKSLASH, QUOTE]"
  by simp

subsection \<open>Field names\<close>

lemma hasForbiddenChar_iff:
  "hasForbiddenChar s \<longleftrightarrow>
     CHR ''{'' \<in> set s \<or> CHR ''}'' \<in> set s \<or> LF \<in> set s \<or> CR \<in> set s"
  unfolding hasForbiddenChar_def list_ex_iff by blast

lemma split_trailing:
  "xs = rev (dropWhile P (rev xs)) @ rev (takeWhile P (rev xs))"
proof -
  have "rev (takeWhile P (rev xs) @ dropWhile P (rev xs)) = xs"
    by (simp only: takeWhile_dropWhile_id rev_rev_ident)
  then show ?thesis by (simp only: rev_append)
qed

lemma trim_decompose:
  "\<exists>pre post. s = pre @ trim s @ post
     \<and> (\<forall>c \<in> set pre. isWhiteSpace c) \<and> (\<forall>c \<in> set post. isWhiteSpace c)"
proof -
  let ?pre = "takeWhile isWhiteSpace s"
  let ?rest = "dropWhile isWhiteSpace s"
  let ?post = "rev (takeWhile isWhiteSpace (rev ?rest))"
  have rest: "?rest = trim s @ ?post"
    unfolding trim_def trimEnd_def trimStart_def by (rule split_trailing)
  have "s = ?pre @ ?rest" by simp
  with rest have "s = ?pre @ trim s @ ?post" by simp
  moreover have "\<forall>c \<in> set ?pre. isWhiteSpace c"
    by (auto dest: set_takeWhileD)
  moreover have "\<forall>c \<in> set ?post. isWhiteSpace c"
    by (auto dest: set_takeWhileD)
  ultimately show ?thesis by blast
qed

lemma trim_ends:
  assumes "trim s \<noteq> []"
  shows "\<not> isWhiteSpace (hd (trim s))" and "\<not> isWhiteSpace (last (trim s))"
proof -
  let ?rest = "dropWhile isWhiteSpace s"
  let ?tail = "dropWhile isWhiteSpace (rev ?rest)"
  have t: "trim s = rev ?tail"
    by (simp add: trim_def trimEnd_def trimStart_def)
  with assms have tail: "?tail \<noteq> []" by simp
  then have "\<not> isWhiteSpace (hd ?tail)" by (rule hd_dropWhile)
  with t tail show "\<not> isWhiteSpace (last (trim s))" by (simp add: last_rev)
  have "?tail = []" if "?rest = []"
    using that by (simp only: rev.simps(1) dropWhile.simps(1))
  with tail have rest: "?rest \<noteq> []" by blast
  then have nws: "\<not> isWhiteSpace (hd ?rest)" by (rule hd_dropWhile)
  have "?rest = trim s @ rev (takeWhile isWhiteSpace (rev ?rest))"
    unfolding trim_def trimEnd_def trimStart_def by (rule split_trailing)
  then have "hd ?rest = hd (trim s @ rev (takeWhile isWhiteSpace (rev ?rest)))"
    by (rule arg_cong)
  with assms have "hd ?rest = hd (trim s)" by simp
  with nws show "\<not> isWhiteSpace (hd (trim s))" by simp
qed

text \<open>
  Claim C2. \<^verbatim>\<open>sanitizeFieldName\<close> throws if and only if its input holds an opening or
  closing brace, a line feed or a carriage return, or trims to the empty string. For
  every other input it returns the input trimmed: the input is the result with white
  space before and after it, and the result neither starts nor ends with white space.
\<close>

theorem sanitizeFieldName_throws_iff:
  "(isl (sanitizeFieldName s) \<longleftrightarrow>
      CHR ''{'' \<in> set s \<or> CHR ''}'' \<in> set s \<or> LF \<in> set s \<or> CR \<in> set s \<or> trim s = [])
   \<and> (\<not> isl (sanitizeFieldName s) \<longrightarrow>
        sanitizeFieldName s = Inr (trim s)
        \<and> (\<exists>pre post. s = pre @ trim s @ post
              \<and> (\<forall>c \<in> set pre. isWhiteSpace c) \<and> (\<forall>c \<in> set post. isWhiteSpace c))
        \<and> \<not> isWhiteSpace (hd (trim s)) \<and> \<not> isWhiteSpace (last (trim s)))"
proof -
  have thr: "isl (sanitizeFieldName s) \<longleftrightarrow>
      CHR ''{'' \<in> set s \<or> CHR ''}'' \<in> set s \<or> LF \<in> set s \<or> CR \<in> set s \<or> trim s = []"
    unfolding sanitizeFieldName_def hasForbiddenChar_iff by (simp add: Let_def)
  have ok: "sanitizeFieldName s = Inr (trim s) \<and> trim s \<noteq> []" if "\<not> isl (sanitizeFieldName s)"
    using that unfolding sanitizeFieldName_def by (simp add: Let_def split: if_splits)
  show ?thesis
    using thr ok trim_decompose [of s] trim_ends [of s] by blast
qed

theorem sanitizeFieldName_throws_iff_witness:
  "\<not> isl (sanitizeFieldName ''  Creator Type '')
   \<and> sanitizeFieldName ''  Creator Type '' = Inr ''Creator Type''
   \<and> isl (sanitizeFieldName ''Field}OR{Evil'')
   \<and> isl (sanitizeFieldName ''   '')"
proof -
  have t: "trim ''  Creator Type '' = ''Creator Type''"
    by (simp add: trim_def trimEnd_def trimStart_def isWhiteSpace_def)
  have e: "trim ''   '' = []"
    by (simp add: trim_def trimEnd_def trimStart_def isWhiteSpace_def)
  show ?thesis
    using sanitizeFieldName_throws_iff [of "''  Creator Type ''"]
      sanitizeFieldName_throws_iff [of "''Field}OR{Evil''"]
      sanitizeFieldName_throws_iff [of "''   ''"] t e
    by simp
qed

subsection \<open>Age ranges\<close>

lemma overlapLoop_filter:
  "overlapLoop minA maxA rs acc = acc @ map name (filter (bucketOverlaps minA maxA) rs)"
  by (induction rs arbitrary: acc) (simp_all add: bucketOverlaps_def split: option.splits)

lemma name_parseAgeRange: "name (parseAgeRange s) = s"
  by (simp add: parseAgeRange_def Let_def)

lemma findOverlapping_filter:
  "findOverlappingAgeRanges minA maxA availableRanges =
     filter (\<lambda>label. bucketOverlaps minA maxA (parseAgeRange label)) availableRanges"
  by (simp add: findOverlappingAgeRanges_def overlapLoop_filter filter_map comp_def
      name_parseAgeRange)

lemma decimal_digit_code:
  assumes "isRadixDigit 10 c"
  shows "48 \<le> (of_char c :: nat) \<and> (of_char c :: nat) \<le> 57"
  using assms unfolding isRadixDigit_def digitValue_def Let_def
  by (simp split: if_splits)

lemma decimal_digit_plain:
  assumes "isRadixDigit 10 c"
  shows "\<not> isWhiteSpace c" "c \<noteq> CHR ''-''" "c \<noteq> CHR ''+''" "c \<noteq> CHR ''x''" "c \<noteq> CHR ''X''"
  using decimal_digit_code [OF assms] unfolding isWhiteSpace_def by auto

lemma parseInt_decimal:
  assumes "isDecimal s"
  shows "parseInt s = toNumber (digitsValue 10 s)"
proof -
  from assms obtain c cs where s: "s = c # cs" and c: "isRadixDigit 10 c"
    and cs: "\<forall>d \<in> set cs. isRadixDigit 10 d"
    unfolding isDecimal_def by (cases s) (auto simp: list_all_iff)
  have t: "trimStart s = s"
    using s decimal_digit_plain(1) [OF c] by (simp add: trimStart_def)
  have sign: "\<not> startsWith s ''-''" "\<not> startsWith s ''+''"
    using s decimal_digit_plain(2,3) [OF c] by simp_all
  have hex: "\<not> startsWith s ''0x''" "\<not> startsWith s ''0X''"
  proof -
    show "\<not> startsWith s ''0x''"
      using s cs decimal_digit_plain(4) by (cases cs) auto
    show "\<not> startsWith s ''0X''"
      using s cs decimal_digit_plain(5) by (cases cs) auto
  qed
  have z: "takeWhile (isRadixDigit 10) s = s"
    using s c cs by (simp add: takeWhile_eq_all_conv)
  have ne: "s \<noteq> []" using s by simp
  show ?thesis
    unfolding parseInt_def Let_def by (simp add: t sign hex z ne)
qed

lemma split_str_nonempty: "split_str sep s \<noteq> []"
  by (induction s) (auto split: list.splits)

lemma split_str_no_sep: "sep \<notin> set a \<Longrightarrow> split_str sep a = [a]"
  by (induction a) auto

lemma split_str_first: "sep \<notin> set a \<Longrightarrow> split_str sep (a @ sep # b) = a # split_str sep b"
  by (induction a) auto

lemma includes_str_single: "includes_str s [c] \<longleftrightarrow> c \<in> set s"
  by (induction s) auto

lemma replaceFirst_last: "c \<notin> set a \<Longrightarrow> replaceFirst c r (a @ [c]) = a @ r"
  by (induction a) auto

lemma decimal_no_marks:
  assumes "isDecimal s"
  shows "CHR ''-'' \<notin> set s" "CHR ''+'' \<notin> set s"
  using assms decimal_digit_plain(2,3) unfolding isDecimal_def list_all_iff by blast+

lemma parseAgeRange_bounded:
  assumes "isDecimal lo" "isDecimal hi"
  shows "parseAgeRange (lo @ ''-'' @ hi) =
           \<lparr>id' = [], name = lo @ ''-'' @ hi,
            minAge = toNumber (digitsValue 10 lo),
            maxAge = Some (toNumber (digitsValue 10 hi))\<rparr>"
proof -
  have parts: "split_str CHR ''-'' (lo @ ''-'' @ hi) = [lo, hi]"
    using decimal_no_marks(1) [OF assms(1)] decimal_no_marks(1) [OF assms(2)]
    by (simp add: split_str_first split_str_no_sep)
  have plus: "\<not> includes_str (lo @ ''-'' @ hi) ''+''"
    using decimal_no_marks(2) [OF assms(1)] decimal_no_marks(2) [OF assms(2)]
    by (simp add: includes_str_single)
  show ?thesis
    unfolding parseAgeRange_def Let_def parts using plus
    by (simp add: at_index_def parseIntArg_def parseInt_decimal [OF assms(1)]
        parseInt_decimal [OF assms(2)])
qed

lemma parseAgeRange_unbounded:
  assumes "isDecimal lo"
  shows "parseAgeRange (lo @ ''+'') =
           \<lparr>id' = [], name = lo @ ''+'',
            minAge = toNumber (digitsValue 10 lo), maxAge = None\<rparr>"
proof -
  have plus: "includes_str (lo @ ''+'') ''+''"
    by (simp add: includes_str_single)
  have "replaceFirst CHR ''+'' [] (lo @ ''+'') = lo"
    using replaceFirst_last [OF decimal_no_marks(2) [OF assms], of "[]"] by simp
  then show ?thesis
    unfolding parseAgeRange_def Let_def using plus
    by (simp add: parseInt_decimal [OF assms])
qed

text \<open>
  Claim C3. \<^verbatim>\<open>findOverlappingAgeRanges\<close> returns, in the order of \<open>availableRanges\<close>,
  exactly the labels whose parsed bounds overlap the query range. A label of two runs of
  decimal digits around \<^verbatim>\<open>-\<close> is a bounded bucket and is kept iff
  \<open>low <= maxAge\<close> and \<open>high >= minAge\<close>; a label of decimal digits and \<^verbatim>\<open>+\<close> is an
  unbounded bucket and is kept iff \<open>maxAge >= low\<close>. For the query range 29 to 42 and
  the six usual buckets the result is \<^verbatim>\<open>["25-34", "35-44"]\<close>.
\<close>

theorem findOverlappingAgeRanges_overlap:
  "findOverlappingAgeRanges minA maxA availableRanges =
     filter (\<lambda>label. bucketOverlaps minA maxA (parseAgeRange label)) availableRanges
   \<and> (isDecimal lo \<and> isDecimal hi \<longrightarrow>
        (bucketOverlaps minA maxA (parseAgeRange (lo @ ''-'' @ hi)) \<longleftrightarrow>
           num_le (toNumber (digitsValue 10 lo)) maxA
           \<and> num_ge (toNumber (digitsValue 10 hi)) minA))
   \<and> (isDecimal lo \<longrightarrow>
        (bucketOverlaps minA maxA (parseAgeRange (lo @ ''+'')) \<longleftrightarrow>
           num_ge maxA (toNumber (digitsValue 10 lo))))
   \<and> findOverlappingAgeRanges (Finite 29) (Finite 42)
        [''12-17'', ''18-24'', ''25-34'', ''35-44'', ''45-65'', ''65+'']
      = [''25-34'', ''35-44'']"
proof -
  have ex: "findOverlappingAgeRanges (Finite 29) (Finite 42)
        [''12-17'', ''18-24'', ''25-34'', ''35-44'', ''45-65'', ''65+'']
      = [''25-34'', ''35-44'']"
    by code_simp
  have b: "bucketOverlaps minA maxA (parseAgeRange (lo @ ''-'' @ hi)) \<longleftrightarrow>
           num_le (toNumber (digitsValue 10 lo)) maxA
           \<and> num_ge (toNumber (digitsValue 10 hi)) minA"
    if "isDecimal lo" "isDecimal hi"
    unfolding bucketOverlaps_def parseAgeRange_bounded [OF that] by simp
  have u: "bucketOverlaps minA maxA (parseAgeRange (lo @ ''+'')) \<longleftrightarrow>
           num_ge maxA (toNumber (digitsValue 10 lo))"
    if "isDecimal lo"
    unfolding bucketOverlaps_def parseAgeRange_unbounded [OF that] by simp
  show ?thesis
    using findOverlapping_filter [of minA maxA availableRanges] ex b u by blast
qed

theorem findOverlappingAgeRanges_overlap_witness:
  "isDecimal ''25'' \<and> isDecimal ''34'' \<and> isDecimal ''65''
   \<and> bucketOverlaps (Finite 29) (Finite 42) (parseAgeRange ''25-34'')
   \<and> \<not> bucketOverlaps (Finite 29) (Finite 42) (parseAgeRange ''65+'')"
proof -
  have d: "isDecimal ''25''" "isDecimal ''34''" "isDecimal ''65''"
    by code_simp+
  have v: "toNumber (digitsValue 10 ''25'') = Finite 25"
    "toNumber (digitsValue 10 ''34'') = Finite 34"
    "toNumber (digitsValue 10 ''65'') = Finite 65"
    by code_simp+
  show ?thesis
    using findOverlappingAgeRanges_overlap [of "Finite 29" "Finite 42" "[]" "''25''" "''34''"]
      findOverlappingAgeRanges_overlap [of "Finite 29" "Finite 42" "[]" "''65''" "''34''"] d v
    by (simp add: num_ge_def)
qed

lemma join_two: "join sep [a, b] = a @ sep @ b"
  by simp

text \<open>
  Claim C4. For a field name that passes \<^verbatim>\<open>sanitizeFieldName\<close>,
  \<^verbatim>\<open>buildAgeRangeFormula\<close> returns \<^verbatim>\<open>FALSE()\<close> when no bucket overlaps the query range,
  the single equality leaf without an \<^verbatim>\<open>OR\<close> around it when exactly one bucket overlaps,
  and otherwise \<^verbatim>\<open>OR(...)\<close> of one equality leaf for each overlapping bucket, in the order
  of \<open>availableRanges\<close>. With the six usual buckets, the query range 18 to 24 gives
  \<^verbatim>\<open>{Age} = '18-24'\<close>, 29 to 42 gives the \<^verbatim>\<open>OR\<close> of two leaves and 5 to 10 gives \<^verbatim>\<open>FALSE()\<close>.
\<close>

theorem buildAgeRangeFormula_cases:
  "(sanitizeFieldName fieldName = Inr f \<longrightarrow>
      (overlappingBuckets minA maxA availableRanges = [] \<longrightarrow>
         buildAgeRangeFormula fieldName minA maxA availableRanges = Inr ''FALSE()'')
      \<and> (\<forall>bucket. overlappingBuckets minA maxA availableRanges = [bucket] \<longrightarrow>
           buildAgeRangeFormula fieldName minA maxA availableRanges =
             Inr (''{'' @ f @ ''} = '' @ [QUOTE] @ escapeFormulaString bucket @ [QUOTE]))
      \<and> (2 \<le> length (overlappingBuckets minA maxA availableRanges) \<longrightarrow>
           buildAgeRangeFormula fieldName minA maxA availableRanges =
             Inr (''OR('' @
                  join '', ''
                    (map (\<lambda>bucket. ''{'' @ f @ ''} = '' @ [QUOTE] @ escapeFormulaString bucket @ [QUOTE])
                       (overlappingBuckets minA maxA availableRanges))
                  @ '')'')))
   \<and> buildAgeRangeFormula ''Age'' (Finite 18) (Finite 24)
        [''12-17'', ''18-24'', ''25-34'', ''35-44'', ''45-65'', ''65+'']
      = Inr (''{Age} = '' @ [QUOTE] @ ''18-24'' @ [QUOTE])
   \<and> buildAgeRangeFormula ''Age'' (Finite 29) (Finite 42)
        [''12-17'', ''18-24'', ''25-34'', ''35-44'', ''45-65'', ''65+'']
      = Inr (''OR({Age} = '' @ [QUOTE] @ ''25-34'' @ [QUOTE] @ '', {Age} = ''
               @ [QUOTE] @ ''35-44'' @ [QUOTE] @ '')'')
   \<and> buildAgeRangeFormula ''Age'' (Finite 5) (Finite 10)
        [''12-17'', ''18-24'', ''25-34'', ''35-44'', ''45-65'', ''65+'']
      = Inr ''FALSE()''"
proof -
  let ?ov = "overlappingBuckets minA maxA availableRanges"
  have ov: "findOverlappingAgeRanges minA maxA availableRanges = ?ov"
    by (simp add: overlappingBuckets_def findOverlapping_filter)
  have leaf: "equalityLeaf f = (\<lambda>bucket. ''{'' @ f @ ''} = '' @ [QUOTE] @ escapeFormulaString bucket @ [QUOTE])"
    by (rule ext) (simp add: equalityLeaf_def)
  have g: "buildAgeRangeFormula fieldName minA maxA availableRanges =
      (if length ?ov = 0 then Inr ''FALSE()''
       else if length ?ov = 1 then Inr (equalityLeaf f (?ov ! 0))
       else Inr (''OR('' @ join '', '' (map (equalityLeaf f) ?ov) @ '')''))"
    if "sanitizeFieldName fieldName = Inr f"
    unfolding buildAgeRangeFormula_def ov Let_def using that by simp
  have c0: "buildAgeRangeFormula fieldName minA maxA availableRanges = Inr ''FALSE()''"
    if "sanitizeFieldName fieldName = Inr f" "?ov = []"
    using g [OF that(1)] that(2) by simp
  have c1: "buildAgeRangeFormula fieldName minA maxA availableRanges =
             Inr (''{'' @ f @ ''} = '' @ [QUOTE] @ escapeFormulaString bucket @ [QUOTE])"
    if "sanitizeFieldName fieldName = Inr f" "?ov = [bucket]" for bucket
    using g [OF that(1)] that(2) by (simp add: equalityLeaf_def)
  have c2: "buildAgeRangeFormula fieldName minA maxA availableRanges =
             Inr (''OR('' @
                  join '', ''
                    (map (\<lambda>bucket. ''{'' @ f @ ''} = '' @ [QUOTE] @ escapeFormulaString bucket @ [QUOTE])
                       ?ov)
                  @ '')'')"
    if "sanitizeFieldName fieldName = Inr f" "2 \<le> length ?ov"
  proof -
    from that(2) have "length ?ov \<noteq> 0" "length ?ov \<noteq> 1" by arith+
    then show ?thesis using g [OF that(1)] unfolding leaf by simp
  qed
  have e1: "buildAgeRangeFormula ''Age'' (Finite 18) (Finite 24)
        [''12-17'', ''18-24'', ''25-34'', ''35-44'', ''45-65'', ''65+'']
      = Inr (''{Age} = '' @ [QUOTE] @ ''18-24'' @ [QUOTE])"
    by code_simp
  have e2: "buildAgeRangeFormula ''Age'' (Finite 29) (Finite 42)
        [''12-17'', ''18-24'', ''25-34'', ''35-44'', ''45-65'', ''65+'']
      = Inr (''OR({Age} = '' @ [QUOTE] @ ''25-34'' @ [QUOTE] @ '', {Age} = ''
               @ [QUOTE] @ ''35-44'' @ [QUOTE] @ '')'')"
    by code_simp
  have e3: "buildAgeRangeFormula ''Age'' (Finite 5) (Finite 10)
        [''12-17'', ''18-24'', ''25-34'', ''35-44'', ''45-65'', ''65+'']
      = Inr ''FALSE()''"
    by code_simp
  show ?thesis
    using c0 c1 c2 e1 e2 e3 by blast
qed

theorem buildAgeRangeFormula_cases_witness:
  "sanitizeFieldName '' Age '' = Inr ''Age''
   \<and> overlappingBuckets (Finite 18) (Finite 24)
        [''12-17'', ''18-24'', ''25-34'', ''35-44'', ''45-65'', ''65+''] = [''18-24'']
   \<and> buildAgeRangeFormula '' Age '' (Finite 18) (Finite 24)
        [''12-17'', ''18-24'', ''25-34'', ''35-44'', ''45-65'', ''65+'']
      = Inr (''{Age} = '' @ [QUOTE] @ ''18-24'' @ [QUOTE])
   \<and> 2 \<le> length (overlappingBuckets (Finite 29) (Finite 42) [''25-34'', ''35-44'', ''65+''])
   \<and> buildAgeRangeFormula '' Age '' (Finite 29) (Finite 42) [''25-34'', ''35-44'', ''65+'']
      = Inr (''OR({Age} = '' @ [QUOTE] @ ''25-34'' @ [QUOTE] @ '', {Age} = ''
               @ [QUOTE] @ ''35-44'' @ [QUOTE] @ '')'')
   \<and> overlappingBuckets (Finite 5) (Finite 10) [''25-34'', ''65+''] = []
   \<and> buildAgeRangeFormula '' Age '' (Finite 5) (Finite 10) [''25-34'', ''65+'']
      = Inr ''FALSE()''"
proof -
  have s: "sanitizeFieldName '' Age '' = Inr ''Age''"
    by code_simp
  have o1: "overlappingBuckets (Finite 18) (Finite 24)
        [''12-17'', ''18-24'', ''25-34'', ''35-44'', ''45-65'', ''65+''] = [''18-24'']"
    by code_simp
  have o2: "overlappingBuckets (Finite 29) (Finite 42) [''25-34'', ''35-44'', ''65+'']
      = [''25-34'', ''35-44'']"
    by code_simp
  have o0: "overlappingBuckets (Finite 5) (Finite 10) [''25-34'', ''65+''] = []"
    by code_simp
  show ?thesis
    using buildAgeRangeFormula_cases [of "'' Age ''" "''Age''" "Finite 18" "Finite 24"
        "[''12-17'', ''18-24'', ''25-34'', ''35-44'', ''45-65'', ''65+'']"]
      buildAgeRangeFormula_cases [of "'' Age ''" "''Age''" "Finite 29" "Finite 42"
        "[''25-34'', ''35-44'', ''65+'']"]
      buildAgeRangeFormula_cases [of "'' Age ''" "''Age''" "Finite 5" "Finite 10"
        "[''25-34'', ''65+'']"]
      s o1 o2 o0
    by simp
qed

subsection \<open>Combinators\<close>

lemma combineFormulasAnd_survivors:
  "combineFormulasAnd formulas =
     (if survivors ''TRUE()'' formulas = [] then ''TRUE()''
      else if length (survivors ''TRUE()'' formulas) = 1 then survivors ''TRUE()'' formulas ! 0
      else ''AND('' @ join '', '' (survivors ''TRUE()'' formulas) @ '')'')"
  unfolding combineFormulasAnd_def survivors_def Let_def by simp

lemma combineFormulasOr_survivors:
  "combineFormulasOr formulas =
     (if survivors ''FALSE()'' formulas = [] then ''FALSE()''
      else if length (survivors ''FALSE()'' formulas) = 1 then survivors ''FALSE()'' formulas ! 0
      else ''OR('' @ join '', '' (survivors ''FALSE()'' formulas) @ '')'')"
  unfolding combineFormulasOr_def survivors_def Let_def by simp

text \<open>
  Claim C5. \<^verbatim>\<open>combineFormulasAnd\<close> and \<^verbatim>\<open>combineFormulasOr\<close> drop the empty formulas and
  their own identity sentinel. With no formula left they return the sentinel, with one
  left they return it as it is, and with two or more they return \<^verbatim>\<open>AND(a, b, ...)\<close> or
  \<^verbatim>\<open>OR(a, b, ...)\<close> over what is left, in order. \<^verbatim>\<open>combineFormulasAnd("TRUE()", "{A} = 'x'")\<close>
  is \<^verbatim>\<open>{A} = 'x'\<close>.
\<close>

theorem combineFormulas_cases:
  "(survivors ''TRUE()'' formulas = [] \<longrightarrow> combineFormulasAnd formulas = ''TRUE()'')
   \<and> (\<forall>a. survivors ''TRUE()'' formulas = [a] \<longrightarrow> combineFormulasAnd formulas = a)
   \<and> (2 \<le> length (survivors ''TRUE()'' formulas) \<longrightarrow>
        combineFormulasAnd formulas = ''AND('' @ join '', '' (survivors ''TRUE()'' formulas) @ '')'')
   \<and> (survivors ''FALSE()'' formulas = [] \<longrightarrow> combineFormulasOr formulas = ''FALSE()'')
   \<and> (\<forall>a. survivors ''FALSE()'' formulas = [a] \<longrightarrow> combineFormulasOr formulas = a)
   \<and> (2 \<le> length (survivors ''FALSE()'' formulas) \<longrightarrow>
        combineFormulasOr formulas = ''OR('' @ join '', '' (survivors ''FALSE()'' formulas) @ '')'')
   \<and> join '', '' [a, b] = a @ '', '' @ b
   \<and> join '', '' [a, b, c] = a @ '', '' @ b @ '', '' @ c
   \<and> combineFormulasAnd [''TRUE()'', ''{A} = '' @ [QUOTE] @ ''x'' @ [QUOTE]]
       = ''{A} = '' @ [QUOTE] @ ''x'' @ [QUOTE]"
proof -
  have a0: "combineFormulasAnd formulas = ''TRUE()''" if "survivors ''TRUE()'' formulas = []"
    using that by (simp add: combineFormulasAnd_survivors)
  have a1: "combineFormulasAnd formulas = a" if "survivors ''TRUE()'' formulas = [a]" for a
    using that by (simp add: combineFormulasAnd_survivors)
  have a2: "combineFormulasAnd formulas = ''AND('' @ join '', '' (survivors ''TRUE()'' formulas) @ '')''"
    if "2 \<le> length (survivors ''TRUE()'' formulas)"
  proof -
    from that have "survivors ''TRUE()'' formulas \<noteq> []" "length (survivors ''TRUE()'' formulas) \<noteq> 1"
      by auto
    then show ?thesis by (simp add: combineFormulasAnd_survivors)
  qed
  have o0: "combineFormulasOr formulas = ''FALSE()''" if "survivors ''FALSE()'' formulas = []"
    using that by (simp add: combineFormulasOr_survivors)
  have o1: "combineFormulasOr formulas = a" if "survivors ''FALSE()'' formulas = [a]" for a
    using that by (simp add: combineFormulasOr_survivors)
  have o2: "combineFormulasOr formulas = ''OR('' @ join '', '' (survivors ''FALSE()'' formulas) @ '')''"
    if "2 \<le> length (survivors ''FALSE()'' formulas)"
  proof -
    from that have "survivors ''FALSE()'' formulas \<noteq> []" "length (survivors ''FALSE()'' formulas) \<noteq> 1"
      by auto
    then show ?thesis by (simp add: combineFormulasOr_survivors)
  qed
  have j: "join '', '' [a, b] = a @ '', '' @ b" "join '', '' [a, b, c] = a @ '', '' @ b @ '', '' @ c"
    by simp_all
  have e: "combineFormulasAnd [''TRUE()'', ''{A} = '' @ [QUOTE] @ ''x'' @ [QUOTE]]
       = ''{A} = '' @ [QUOTE] @ ''x'' @ [QUOTE]"
    by (simp add: combineFormulasAnd_def)
  show ?thesis
    using a0 a1 a2 o0 o1 o2 j e by blast
qed

theorem combineFormulas_cases_witness:
  "survivors ''TRUE()'' [''TRUE()'', [], ''TRUE()''] = []
   \<and> combineFormulasAnd [''TRUE()'', [], ''TRUE()''] = ''TRUE()''
   \<and> survivors ''TRUE()'' [''TRUE()'', ''p'', []] = [''p'']
   \<and> combineFormulasAnd [''TRUE()'', ''p'', []] = ''p''
   \<and> 2 \<le> length (survivors ''TRUE()'' [''p'', ''TRUE()'', ''FALSE()'', ''q''])
   \<and> combineFormulasAnd [''p'', ''TRUE()'', ''FALSE()'', ''q''] = ''AND(p, FALSE(), q)''
   \<and> survivors ''FALSE()'' [''FALSE()'', []] = []
   \<and> combineFormulasOr [''FALSE()'', []] = ''FALSE()''
   \<and> survivors ''FALSE()'' [[], ''p'', ''FALSE()''] = [''p'']
   \<and> combineFormulasOr [[], ''p'', ''FALSE()''] = ''p''
   \<and> 2 \<le> length (survivors ''FALSE()'' [''p'', ''TRUE()'', ''FALSE()'', ''q''])
   \<and> combineFormulasOr [''p'', ''TRUE()'', ''FALSE()'', ''q''] = ''OR(p, TRUE(), q)''"
  using combineFormulas_cases [of "[''TRUE()'', [], ''TRUE()'']"]
    combineFormulas_cases [of "[''TRUE()'', ''p'', []]"]
    combineFormulas_cases [of "[''p'', ''TRUE()'', ''FALSE()'', ''q'']"]
    combineFormulas_cases [of "[''FALSE()'', []]"]
    combineFormulas_cases [of "[[], ''p'', ''FALSE()'']"]
  by (simp add: survivors_def)

subsection \<open>Set-membership builders\<close>

text \<open>
  Claim C7. For a field name that passes \<^verbatim>\<open>sanitizeFieldName\<close>, and for an empty list
  of values or a list whose resolved values are empty, \<^verbatim>\<open>buildMultipleSelectHasAny\<close>
  returns \<^verbatim>\<open>FALSE()\<close> and \<^verbatim>\<open>buildMultipleSelectHasAll\<close> returns \<^verbatim>\<open>TRUE()\<close>; neither
  throws. \<^verbatim>\<open>buildMultipleSelectHasAll("Field", [])\<close> is \<^verbatim>\<open>TRUE()\<close>.
\<close>

theorem buildMultipleSelect_empty:
  "(sanitizeFieldName fieldName = Inr f \<longrightarrow>
      buildMultipleSelectHasAny fieldName [] availableOptions useFuzzyMatch = Inr ''FALSE()''
      \<and> buildMultipleSelectHasAll fieldName [] availableOptions useFuzzyMatch = Inr ''TRUE()''
      \<and> (resolvedValuesOf values availableOptions useFuzzyMatch = [] \<longrightarrow>
           buildMultipleSelectHasAny fieldName values availableOptions useFuzzyMatch = Inr ''FALSE()''
           \<and> buildMultipleSelectHasAll fieldName values availableOptions useFuzzyMatch = Inr ''TRUE()''))
   \<and> buildMultipleSelectHasAll ''Field'' [] None True = Inr ''TRUE()''"
proof -
  have any0: "buildMultipleSelectHasAny fieldName [] availableOptions useFuzzyMatch = Inr ''FALSE()''"
    if "sanitizeFieldName fieldName = Inr f"
    using that by (simp add: buildMultipleSelectHasAny_def)
  have all0: "buildMultipleSelectHasAll fieldName [] availableOptions useFuzzyMatch = Inr ''TRUE()''"
    if "sanitizeFieldName fieldName = Inr f"
    using that by (simp add: buildMultipleSelectHasAll_def)
  have any1: "buildMultipleSelectHasAny fieldName values availableOptions useFuzzyMatch = Inr ''FALSE()''"
    if "sanitizeFieldName fieldName = Inr f" "resolvedValuesOf values availableOptions useFuzzyMatch = []"
    using that by (simp add: buildMultipleSelectHasAny_def Let_def)
  have all1: "buildMultipleSelectHasAll fieldName values availableOptions useFuzzyMatch = Inr ''TRUE()''"
    if "sanitizeFieldName fieldName = Inr f" "resolvedValuesOf values availableOptions useFuzzyMatch = []"
    using that by (simp add: buildMultipleSelectHasAll_def Let_def)
  have s: "sanitizeFieldName ''Field'' = Inr ''Field''"
    by code_simp
  have e: "buildMultipleSelectHasAll ''Field'' [] None True = Inr ''TRUE()''"
    using s by (simp add: buildMultipleSelectHasAll_def)
  show ?thesis
    using any0 all0 any1 all1 e by blast
qed

theorem buildMultipleSelect_empty_witness:
  "sanitizeFieldName ''Pros'' = Inr ''Pros''
   \<and> [''zzz''] \<noteq> []
   \<and> resolvedValuesOf [''zzz''] (Some [''Great lighting'', ''Fast'']) True = []
   \<and> buildMultipleSelectHasAny ''Pros'' [''zzz''] (Some [''Great lighting'', ''Fast'']) True
       = Inr ''FALSE()''
   \<and> buildMultipleSelectHasAll ''Pros'' [''zzz''] (Some [''Great lighting'', ''Fast'']) True
       = Inr ''TRUE()''
   \<and> buildMultipleSelectHasAny ''Pros'' [] (Some [''Fast'']) True = Inr ''FALSE()''
   \<and> buildMultipleSelectHasAll ''Pros'' [] (Some [''Fast'']) True = Inr ''TRUE()''"
proof -
  have s: "sanitizeFieldName ''Pros'' = Inr ''Pros''"
    by code_simp
  have r: "resolvedValuesOf [''zzz''] (Some [''Great lighting'', ''Fast'']) True = []"
    by code_simp
  show ?thesis
    using buildMultipleSelect_empty [of "''Pros''" "''Pros''" "Some [''Great lighting'', ''Fast'']"
        True "[''zzz'']"]
      buildMultipleSelect_empty [of "''Pros''" "''Pros''" "Some [''Fast'']" True "[]"] s r
    by simp
qed

text \<open>
  Claim C8. For a field name that passes \<^verbatim>\<open>sanitizeFieldName\<close>,
  \<^verbatim>\<open>buildMultipleSelectHasNone\<close> returns \<^verbatim>\<open>TRUE()\<close> when the resolved values are empty,
  the negation of the one containment leaf when there is one resolved value, and
  \<^verbatim>\<open>NOT(OR(...))\<close> over one containment leaf for each value when there are more.
  \<^verbatim>\<open>buildMultipleSelectHasNone("Tags", ["X"])\<close> is \<^verbatim>\<open>NOT(FIND('X', ARRAYJOIN({Tags})))\<close>.
\<close>

theorem buildMultipleSelectHasNone_cases:
  "(sanitizeFieldName fieldName = Inr f \<longrightarrow>
      (resolvedValuesOf values availableOptions useFuzzyMatch = [] \<longrightarrow>
         buildMultipleSelectHasNone fieldName values availableOptions useFuzzyMatch = Inr ''TRUE()'')
      \<and> (\<forall>v. resolvedValuesOf values availableOptions useFuzzyMatch = [v] \<longrightarrow>
           buildMultipleSelectHasNone fieldName values availableOptions useFuzzyMatch =
             Inr (''NOT(FIND('' @ [QUOTE] @ escapeFormulaString v @ [QUOTE] @ '', ARRAYJOIN({''
                    @ f @ ''})))''))
      \<and> (2 \<le> length (resolvedValuesOf values availableOptions useFuzzyMatch) \<longrightarrow>
           buildMultipleSelectHasNone fieldName values availableOptions useFuzzyMatch =
             Inr (''NOT(OR('' @
                  join '', ''
                    (map (\<lambda>v. ''FIND('' @ [QUOTE] @ escapeFormulaString v @ [QUOTE]
                                 @ '', ARRAYJOIN({'' @ f @ ''}))'')
                       (resolvedValuesOf values availableOptions useFuzzyMatch))
                  @ ''))'')))
   \<and> buildMultipleSelectHasNone ''Tags'' [''X''] None True
       = Inr (''NOT(FIND('' @ [QUOTE] @ ''X'' @ [QUOTE] @ '', ARRAYJOIN({Tags})))'')"
proof -
  let ?rv = "resolvedValuesOf values availableOptions useFuzzyMatch"
  have leaf: "containmentLeaf f = (\<lambda>v. ''FIND('' @ [QUOTE] @ escapeFormulaString v @ [QUOTE]
                                 @ '', ARRAYJOIN({'' @ f @ ''}))'')"
    by (rule ext) (simp add: containmentLeaf_def)
  have g: "buildMultipleSelectHasNone fieldName values availableOptions useFuzzyMatch =
      (if length ?rv = 0 then Inr ''TRUE()''
       else if length ?rv = 1 then Inr (''NOT('' @ containmentLeaf f (?rv ! 0) @ '')'')
       else Inr (''NOT(OR('' @ join '', '' (map (containmentLeaf f) ?rv) @ ''))''))"
    if "sanitizeFieldName fieldName = Inr f"
  proof (cases "values = []")
    case True
    then have "?rv = []"
      by (simp add: resolvedValuesOf_def resolveOptionsWithFuzzyMatch_def split: option.splits)
    with True that show ?thesis
      by (simp add: buildMultipleSelectHasNone_def)
  next
    case False
    with that show ?thesis
      by (simp add: buildMultipleSelectHasNone_def Let_def)
  qed
  have c0: "buildMultipleSelectHasNone fieldName values availableOptions useFuzzyMatch = Inr ''TRUE()''"
    if "sanitizeFieldName fieldName = Inr f" "?rv = []"
    using g [OF that(1)] that(2) by simp
  have c1: "buildMultipleSelectHasNone fieldName values availableOptions useFuzzyMatch =
             Inr (''NOT(FIND('' @ [QUOTE] @ escapeFormulaString v @ [QUOTE] @ '', ARRAYJOIN({''
                    @ f @ ''})))'')"
    if "sanitizeFieldName fieldName = Inr f" "?rv = [v]" for v
    using g [OF that(1)] that(2) by (simp add: containmentLeaf_def)
  have c2: "buildMultipleSelectHasNone fieldName values availableOptions useFuzzyMatch =
             Inr (''NOT(OR('' @
                  join '', ''
                    (map (\<lambda>v. ''FIND('' @ [QUOTE] @ escapeFormulaString v @ [QUOTE]
                                 @ '', ARRAYJOIN({'' @ f @ ''}))'') ?rv)
                  @ ''))'')"
    if "sanitizeFieldName fieldName = Inr f" "2 \<le> length ?rv"
  proof -
    from that(2) have "length ?rv \<noteq> 0" "length ?rv \<noteq> 1" by arith+
    then show ?thesis using g [OF that(1)] unfolding leaf by simp
  qed
  have e: "buildMultipleSelectHasNone ''Tags'' [''X''] None True
       = Inr (''NOT(FIND('' @ [QUOTE] @ ''X'' @ [QUOTE] @ '', ARRAYJOIN({Tags})))'')"
    by code_simp
  show ?thesis
    using c0 c1 c2 e by blast
qed

theorem buildMultipleSelectHasNone_cases_witness:
  "sanitizeFieldName ''Cons'' = Inr ''Cons''
   \<and> resolvedValuesOf [''zzz''] (Some [''Slow'', ''Pricey'']) True = []
   \<and> buildMultipleSelectHasNone ''Cons'' [''zzz''] (Some [''Slow'', ''Pricey'']) True = Inr ''TRUE()''
   \<and> resolvedValuesOf [''slow''] (Some [''Slow'', ''Pricey'']) True = [''Slow'']
   \<and> buildMultipleSelectHasNone ''Cons'' [''slow''] (Some [''Slow'', ''Pricey'']) True
       = Inr (''NOT(FIND('' @ [QUOTE] @ ''Slow'' @ [QUOTE] @ '', ARRAYJOIN({Cons})))'')
   \<and> 2 \<le> length (resolvedValuesOf [''It's'', ''b''] None True)
   \<and> buildMultipleSelectHasNone ''Cons'' [''It's'', ''b''] None True
       = Inr (''NOT(OR(FIND('' @ [QUOTE] @ ''It'' @ [QUOTE, QUOTE] @ ''s'' @ [QUOTE]
                @ '', ARRAYJOIN({Cons})), FIND('' @ [QUOTE] @ ''b'' @ [QUOTE]
                @ '', ARRAYJOIN({Cons}))))'')"
proof -
  have s: "sanitizeFieldName ''Cons'' = Inr ''Cons''"
    by code_simp
  have r0: "resolvedValuesOf [''zzz''] (Some [''Slow'', ''Pricey'']) True = []"
    by code_simp
  have r1: "resolvedValuesOf [''slow''] (Some [''Slow'', ''Pricey'']) True = [''Slow'']"
    by code_simp
  have r2: "resolvedValuesOf [''It's'', ''b''] None True = [''It's'', ''b'']"
    by (simp add: resolvedValuesOf_def)
  show ?thesis
    using buildMultipleSelectHasNone_cases [of "''Cons''" "''Cons''" "[''zzz'']"
        "Some [''Slow'', ''Pricey'']" True]
      buildMultipleSelectHasNone_cases [of "''Cons''" "''Cons''" "[''slow'']"
        "Some [''Slow'', ''Pricey'']" True]
      buildMultipleSelectHasNone_cases [of "''Cons''" "''Cons''" "[''It's'', ''b'']" None True]
      s r0 r1 r2
    by simp
qed

subsection \<open>Number and date ranges\<close>

lemma isFinite_simps:
  "isFinite (Finite x)" "\<not> isFinite NaN" "\<not> isFinite PosInfinity" "\<not> isFinite NegInfinity"
  by (simp_all add: isFinite_def)

lemma sanitizeFieldName_Rating: "sanitizeFieldName ''Rating'' = Inr ''Rating''"
  by code_simp

text \<open>
  Claim C9. \<^verbatim>\<open>buildNumberRangeFormula\<close> throws whenever a bound that is supplied is not a
  finite number, so for \<^verbatim>\<open>NaN\<close> and for both infinities. For a field name that passes
  \<^verbatim>\<open>sanitizeFieldName\<close>: without bounds it returns \<^verbatim>\<open>TRUE()\<close>, with one finite bound the
  one comparison leaf with nothing around it (\<^verbatim>\<open>>=\<close> for the minimum, \<^verbatim>\<open><=\<close> for the
  maximum), and with two finite bounds \<^verbatim>\<open>AND\<close> of the two leaves.
\<close>

theorem buildNumberRangeFormula_cases:
  "((\<exists>m. min' = Some m \<and> \<not> isFinite m) \<or> (\<exists>m. max' = Some m \<and> \<not> isFinite m) \<longrightarrow>
      isl (buildNumberRangeFormula numberToString fieldName min' max'))
   \<and> (sanitizeFieldName fieldName = Inr f \<longrightarrow>
        (\<not> isFinite a \<longrightarrow>
           buildNumberRangeFormula numberToString fieldName (Some a) max' = Inl MinimumNotFinite)
        \<and> (\<not> isFinite b \<and> (\<forall>m. min' = Some m \<longrightarrow> isFinite m) \<longrightarrow>
           buildNumberRangeFormula numberToString fieldName min' (Some b) = Inl MaximumNotFinite)
        \<and> buildNumberRangeFormula numberToString fieldName None None = Inr ''TRUE()''
        \<and> (isFinite a \<longrightarrow>
             buildNumberRangeFormula numberToString fieldName (Some a) None =
               Inr (''{'' @ f @ ''} >= '' @ numberToString a))
        \<and> (isFinite b \<longrightarrow>
             buildNumberRangeFormula numberToString fieldName None (Some b) =
               Inr (''{'' @ f @ ''} <= '' @ numberToString b))
        \<and> (isFinite a \<and> isFinite b \<longrightarrow>
             buildNumberRangeFormula numberToString fieldName (Some a) (Some b) =
               Inr (''AND({'' @ f @ ''} >= '' @ numberToString a @ '', {''
                      @ f @ ''} <= '' @ numberToString b @ '')'')))
   \<and> buildNumberRangeFormula numberToString ''Rating'' (Some NaN) (Some (Finite 5))
       = Inl MinimumNotFinite
   \<and> buildNumberRangeFormula numberToString ''Rating'' (Some PosInfinity) (Some (Finite 5))
       = Inl MinimumNotFinite"
proof -
  have thr: "isl (buildNumberRangeFormula numberToString fieldName min' max')"
    if "(\<exists>m. min' = Some m \<and> \<not> isFinite m) \<or> (\<exists>m. max' = Some m \<and> \<not> isFinite m)"
    using that unfolding buildNumberRangeFormula_def
    by (auto split: sum.splits option.splits)
  have lo: "buildNumberRangeFormula numberToString fieldName (Some a) max' = Inl MinimumNotFinite"
    if "sanitizeFieldName fieldName = Inr f" "\<not> isFinite a"
    using that by (simp add: buildNumberRangeFormula_def)
  have hi: "buildNumberRangeFormula numberToString fieldName min' (Some b) = Inl MaximumNotFinite"
    if "sanitizeFieldName fieldName = Inr f" "\<not> isFinite b" "\<forall>m. min' = Some m \<longrightarrow> isFinite m"
    using that by (cases min') (simp_all add: buildNumberRangeFormula_def)
  have none: "buildNumberRangeFormula numberToString fieldName None None = Inr ''TRUE()''"
    if "sanitizeFieldName fieldName = Inr f"
    using that by (simp add: buildNumberRangeFormula_def)
  have onlymin: "buildNumberRangeFormula numberToString fieldName (Some a) None =
               Inr (''{'' @ f @ ''} >= '' @ numberToString a)"
    if "sanitizeFieldName fieldName = Inr f" "isFinite a"
    using that by (simp add: buildNumberRangeFormula_def)
  have onlymax: "buildNumberRangeFormula numberToString fieldName None (Some b) =
               Inr (''{'' @ f @ ''} <= '' @ numberToString b)"
    if "sanitizeFieldName fieldName = Inr f" "isFinite b"
    using that by (simp add: buildNumberRangeFormula_def)
  have both: "buildNumberRangeFormula numberToString fieldName (Some a) (Some b) =
               Inr (''AND({'' @ f @ ''} >= '' @ numberToString a @ '', {''
                      @ f @ ''} <= '' @ numberToString b @ '')'')"
    if "sanitizeFieldName fieldName = Inr f" "isFinite a" "isFinite b"
    using that by (simp add: buildNumberRangeFormula_def)
  have e1: "buildNumberRangeFormula numberToString ''Rating'' (Some NaN) (Some (Finite 5))
       = Inl MinimumNotFinite"
    by (simp add: buildNumberRangeFormula_def sanitizeFieldName_Rating isFinite_simps)
  have e2: "buildNumberRangeFormula numberToString ''Rating'' (Some PosInfinity) (Some (Finite 5))
       = Inl MinimumNotFinite"
    by (simp add: buildNumberRangeFormula_def sanitizeFieldName_Rating isFinite_simps)
  show ?thesis
    using thr lo hi none onlymin onlymax both e1 e2 by blast
qed

theorem buildNumberRangeFormula_cases_witness:
  "sanitizeFieldName ''Rating'' = Inr ''Rating''
   \<and> \<not> isFinite NegInfinity
   \<and> isl (buildNumberRangeFormula (\<lambda>n. ''4'') ''Rating'' (Some (Finite 4)) (Some NegInfinity))
   \<and> buildNumberRangeFormula (\<lambda>n. ''4'') ''Rating'' (Some (Finite 4)) (Some NegInfinity)
       = Inl MaximumNotFinite
   \<and> buildNumberRangeFormula (\<lambda>n. ''4'') ''Rating'' (Some NegInfinity) (Some (Finite 4))
       = Inl MinimumNotFinite
   \<and> isFinite (Finite 4)
   \<and> buildNumberRangeFormula (\<lambda>n. ''4'') ''Rating'' (Some (Finite 4)) None
       = Inr ''{Rating} >= 4''
   \<and> buildNumberRangeFormula (\<lambda>n. ''4'') ''Rating'' None (Some (Finite 4))
       = Inr ''{Rating} <= 4''
   \<and> buildNumberRangeFormula (\<lambda>n. ''4'') ''Rating'' (Some (Finite 4)) (Some (Finite 4))
       = Inr ''AND({Rating} >= 4, {Rating} <= 4)''"
proof -
  note bad = buildNumberRangeFormula_cases [of "Some (Finite 4)" "Some NegInfinity" "\<lambda>n. ''4''"
      "''Rating''" "''Rating''" NegInfinity NegInfinity]
  note good = buildNumberRangeFormula_cases [of None None "\<lambda>n. ''4''"
      "''Rating''" "''Rating''" "Finite 4" "Finite 4"]
  have n: "\<not> isFinite NegInfinity" and f: "isFinite (Finite 4)"
    by (simp_all add: isFinite_simps)
  have b1: "isl (buildNumberRangeFormula (\<lambda>n. ''4'') ''Rating'' (Some (Finite 4)) (Some NegInfinity))"
    using bad n by blast
  have b2: "buildNumberRangeFormula (\<lambda>n. ''4'') ''Rating'' (Some (Finite 4)) (Some NegInfinity)
       = Inl MaximumNotFinite"
    using bad n f sanitizeFieldName_Rating by auto
  have b3: "buildNumberRangeFormula (\<lambda>n. ''4'') ''Rating'' (Some NegInfinity) (Some (Finite 4))
       = Inl MinimumNotFinite"
    using buildNumberRangeFormula_cases [of None "Some (Finite 4)" "\<lambda>n. ''4''"
      "''Rating''" "''Rating''" NegInfinity NegInfinity] n sanitizeFieldName_Rating by blast
  have g1: "buildNumberRangeFormula (\<lambda>n. ''4'') ''Rating'' (Some (Finite 4)) None
       = Inr (''{'' @ ''Rating'' @ ''} >= '' @ ''4'')"
    using good f sanitizeFieldName_Rating by blast
  have g2: "buildNumberRangeFormula (\<lambda>n. ''4'') ''Rating'' None (Some (Finite 4))
       = Inr (''{'' @ ''Rating'' @ ''} <= '' @ ''4'')"
    using good f sanitizeFieldName_Rating by blast
  have g3: "buildNumberRangeFormula (\<lambda>n. ''4'') ''Rating'' (Some (Finite 4)) (Some (Finite 4))
       = Inr (''AND({'' @ ''Rating'' @ ''} >= '' @ ''4'' @ '', {'' @ ''Rating'' @ ''} <= '' @ ''4'' @ '')'')"
    using good f sanitizeFieldName_Rating by blast
  show ?thesis
    using sanitizeFieldName_Rating n f b1 b2 b3 g1 g2 g3 by simp
qed

text \<open>
  Claim C10. \<^verbatim>\<open>buildDateRangeFormula\<close> treats an empty string as a bound that is not
  there: the empty string does not match the date pattern, yet for a field name that
  passes \<^verbatim>\<open>sanitizeFieldName\<close> the call with two empty strings returns \<^verbatim>\<open>TRUE()\<close>, and
  an empty start or end date gives what the call without that bound gives, so it does
  not throw and adds no comparison leaf.
\<close>

theorem buildDateRangeFormula_empty_bound:
  "\<not> isIsoDate []
   \<and> buildDateRangeFormula fieldName (Some []) endDate
       = buildDateRangeFormula fieldName None endDate
   \<and> buildDateRangeFormula fieldName startDate (Some [])
       = buildDateRangeFormula fieldName startDate None
   \<and> (sanitizeFieldName fieldName = Inr f \<longrightarrow>
        buildDateRangeFormula fieldName (Some []) (Some []) = Inr ''TRUE()''
        \<and> buildDateRangeFormula fieldName (Some []) None = Inr ''TRUE()''
        \<and> buildDateRangeFormula fieldName None (Some []) = Inr ''TRUE()''
        \<and> (isIsoDate d \<longrightarrow>
             buildDateRangeFormula fieldName (Some d) (Some []) =
               Inr (''IS_AFTER({'' @ f @ ''}, '' @ [QUOTE] @ escapeFormulaString d @ [QUOTE] @ '')'')
             \<and> buildDateRangeFormula fieldName (Some []) (Some d) =
               Inr (''IS_BEFORE({'' @ f @ ''}, '' @ [QUOTE] @ escapeFormulaString d @ [QUOTE] @ '')'')))"
proof -
  have p: "\<not> isIsoDate []"
    by (simp add: isIsoDate_def)
  have s: "buildDateRangeFormula fieldName (Some []) endDate
       = buildDateRangeFormula fieldName None endDate" for endDate
    by (cases "sanitizeFieldName fieldName") (simp_all add: buildDateRangeFormula_def)
  have e: "buildDateRangeFormula fieldName startDate (Some [])
       = buildDateRangeFormula fieldName startDate None" for startDate
    by (cases "sanitizeFieldName fieldName")
      (simp_all add: buildDateRangeFormula_def split: option.splits sum.splits)
  have t: "buildDateRangeFormula fieldName None None = Inr ''TRUE()''"
    if "sanitizeFieldName fieldName = Inr f"
    using that by (simp add: buildDateRangeFormula_def)
  have d1: "buildDateRangeFormula fieldName (Some d) None =
               Inr (''IS_AFTER({'' @ f @ ''}, '' @ [QUOTE] @ escapeFormulaString d @ [QUOTE] @ '')'')"
    if "sanitizeFieldName fieldName = Inr f" "isIsoDate d"
  proof -
    from that(2) p have "d \<noteq> []" by auto
    with that show ?thesis by (simp add: buildDateRangeFormula_def)
  qed
  have d2: "buildDateRangeFormula fieldName None (Some d) =
               Inr (''IS_BEFORE({'' @ f @ ''}, '' @ [QUOTE] @ escapeFormulaString d @ [QUOTE] @ '')'')"
    if "sanitizeFieldName fieldName = Inr f" "isIsoDate d"
  proof -
    from that(2) p have "d \<noteq> []" by auto
    with that show ?thesis by (simp add: buildDateRangeFormula_def)
  qed
  have core: "sanitizeFieldName fieldName = Inr f \<longrightarrow>
        buildDateRangeFormula fieldName (Some []) (Some []) = Inr ''TRUE()''
        \<and> buildDateRangeFormula fieldName (Some []) None = Inr ''TRUE()''
        \<and> buildDateRangeFormula fieldName None (Some []) = Inr ''TRUE()''
        \<and> (isIsoDate d \<longrightarrow>
             buildDateRangeFormula fieldName (Some d) (Some []) =
               Inr (''IS_AFTER({'' @ f @ ''}, '' @ [QUOTE] @ escapeFormulaString d @ [QUOTE] @ '')'')
             \<and> buildDateRangeFormula fieldName (Some []) (Some d) =
               Inr (''IS_BEFORE({'' @ f @ ''}, '' @ [QUOTE] @ escapeFormulaString d @ [QUOTE] @ '')''))"
    using t d1 d2 by (simp add: s e)
  show ?thesis
    by (intro conjI) (rule p s e core)+
qed

theorem buildDateRangeFormula_empty_bound_witness:
  "sanitizeFieldName ''Created'' = Inr ''Created''
   \<and> buildDateRangeFormula ''Created'' (Some []) (Some []) = Inr ''TRUE()''
   \<and> isIsoDate ''2024-01-01''
   \<and> buildDateRangeFormula ''Created'' (Some ''2024-01-01'') (Some [])
       = Inr (''IS_AFTER({Created}, '' @ [QUOTE] @ ''2024-01-01'' @ [QUOTE] @ '')'')
   \<and> buildDateRangeFormula ''Created'' (Some []) (Some ''2024-01-01'')
       = Inr (''IS_BEFORE({Created}, '' @ [QUOTE] @ ''2024-01-01'' @ [QUOTE] @ '')'')"
proof -
  have s: "sanitizeFieldName ''Created'' = Inr ''Created''"
    by code_simp
  have i: "isIsoDate ''2024-01-01''"
    by code_simp
  show ?thesis
    using buildDateRangeFormula_empty_bound [of "''Created''" None None "''Created''" "''2024-01-01''"]
      s i
    by simp
qed

subsection \<open>Fuzzy resolution\<close>

lemma set_setAdd: "set (setAdd resolved x) = insert x (set resolved)"
  by (auto simp: setAdd_def)

lemma distinct_setAdd: "distinct resolved \<Longrightarrow> distinct (setAdd resolved x)"
  by (simp add: setAdd_def)

lemma set_foldl_setAdd: "set (foldl setAdd resolved xs) = set resolved \<union> set xs"
  by (induction xs arbitrary: resolved) (auto simp: set_setAdd)

lemma distinct_foldl_setAdd: "distinct resolved \<Longrightarrow> distinct (foldl setAdd resolved xs)"
  by (induction xs arbitrary: resolved) (simp_all add: distinct_setAdd)

lemma set_fuzzyMatchOptions:
  "set (fuzzyMatchOptions token vocabulary) =
     {opt \<in> set vocabulary. includes_str (toLowerCase opt) (toLowerCase token)}"
  by (simp add: fuzzyMatchOptions_def Let_def)

lemma find_in_set: "find P xs = Some x \<Longrightarrow> x \<in> set xs \<and> P x"
  by (induction xs) (auto split: if_splits)

lemma distinct_resolveLoop:
  "distinct resolved \<Longrightarrow> distinct (resolveLoop vocabulary tokens resolved)"
  by (induction tokens arbitrary: resolved)
    (auto simp: distinct_setAdd distinct_foldl_setAdd split: option.splits)

lemma set_resolveLoop:
  assumes "[] \<notin> set vocabulary"
  shows "set (resolveLoop vocabulary tokens resolved) =
           set resolved \<union> (\<Union>token \<in> set tokens. tokenResolution vocabulary token)"
proof (induction tokens arbitrary: resolved)
  case Nil
  show ?case by simp
next
  case (Cons v rest)
  show ?case
  proof (cases "find (\<lambda>opt. toLowerCase opt = toLowerCase v) vocabulary")
    case None
    then show ?thesis
      by (simp add: Cons tokenResolution_def set_foldl_setAdd set_fuzzyMatchOptions Un_assoc)
  next
    case (Some exactMatch)
    with assms find_in_set [OF Some] have "exactMatch \<noteq> []" by auto
    with Some show ?thesis
      by (simp add: Cons tokenResolution_def set_setAdd)
  qed
qed

text \<open>
  When the vocabulary holds no empty string, the resolver does what the specification
  says of it: the result has no duplicates and holds, for every token, the entry equal
  to it up to case if there is one (the first, if there are several) and otherwise every
  entry that contains it up to case. Without a vocabulary, or with an empty one, the
  values are returned as they are.
\<close>

lemma resolveOptionsWithFuzzyMatch_spec:
  "resolveOptionsWithFuzzyMatch values None = values"
  "resolveOptionsWithFuzzyMatch values (Some []) = values"
  "vocabulary \<noteq> [] \<Longrightarrow> [] \<notin> set vocabulary \<Longrightarrow>
     set (resolveOptionsWithFuzzyMatch values (Some vocabulary)) =
       (\<Union>token \<in> set values. tokenResolution vocabulary token)"
  "distinct (resolveOptionsWithFuzzyMatch values (Some (v # vocabulary)))"
  by (simp_all add: resolveOptionsWithFuzzyMatch_def set_resolveLoop distinct_resolveLoop)

lemma resolveOptionsWithFuzzyMatch_examples:
  "resolveOptionsWithFuzzyMatch [''UGC Creator''] (Some [''UGC Creator'', ''VO Creator''])
     = [''UGC Creator'']"
  "resolveOptionsWithFuzzyMatch [''dslr''] (Some [''DSLR Podcast Setup''])
     = [''DSLR Podcast Setup'']"
  "resolveOptionsWithFuzzyMatch [''creator'', ''ugc creator''] (Some [''UGC Creator'', ''VO Creator''])
     = [''UGC Creator'', ''VO Creator'']"
  by code_simp+

text \<open>
  Claim C6 says that a token with an exact match resolves to that vocabulary entry
  only. The source tests the result of \<^verbatim>\<open>find\<close> with \<^verbatim>\<open>if (exactMatch)\<close>, and the empty
  string is falsy: for the vocabulary \<^verbatim>\<open>["", "A"]\<close> and the token \<^verbatim>\<open>""\<close> the exact match
  \<^verbatim>\<open>""\<close> is found and then taken for no match, the token goes to the substring search,
  and the result holds every entry of the vocabulary.
\<close>

theorem resolveOptionsWithFuzzyMatch_empty_exact_match:
  "find (\<lambda>opt. toLowerCase opt = toLowerCase []) [[], ''A''] = Some []
   \<and> tokenResolution [[], ''A''] [] = {[]}
   \<and> resolveOptionsWithFuzzyMatch [[]] (Some [[], ''A'']) = [[], ''A'']"
proof -
  have f: "find (\<lambda>opt. toLowerCase opt = toLowerCase []) [[], ''A''] = Some []"
    by (simp add: toLowerCase_def)
  have r: "resolveOptionsWithFuzzyMatch [[]] (Some [[], ''A'']) = [[], ''A'']"
    by code_simp
  show ?thesis
    using f r by (simp add: tokenResolution_def)
qed

end
